theory Spec2Isabelle
  imports Main
begin

section \<open>The tab manager of \<^verbatim>\<open>src/components/Browser.tsx\<close>\<close>

text \<open>
  The component keeps one \<^verbatim>\<open>BrowserState\<close> in a React state cell and changes it
  through event handlers. Every handler is modelled as a function from the state the
  component was rendered with to the state after the handler's update has been applied;
  the updater argument \<^verbatim>\<open>prev\<close> of \<^verbatim>\<open>setBrowserState\<close> is that same state.
  Effects on the DOM (the iframe reload of \<^verbatim>\<open>handleRefresh\<close>) are outside the model.
\<close>

subsection \<open>JavaScript values and array primitives\<close>

text \<open>
  A handler that dereferences \<^verbatim>\<open>activeTab\<close> while no tab carries \<^verbatim>\<open>activeTabId\<close>
  throws a \<^verbatim>\<open>TypeError\<close> (\<^verbatim>\<open>find\<close> returned \<^verbatim>\<open>undefined\<close>). A thrown handler
  leaves the state cell as it was.
\<close>

datatype exn = TypeError

text \<open>
  \<^verbatim>\<open>Array.prototype.slice(start, end)\<close> on integer arguments: a negative index counts
  from the end, and both indices are clamped to the array.
\<close>

definition relativeIndex :: "int \<Rightarrow> int \<Rightarrow> int" where
  "relativeIndex len i = (if i < 0 then max (len + i) 0 else min i len)"

definition slice :: "'a list \<Rightarrow> int \<Rightarrow> int \<Rightarrow> 'a list" where
  "slice xs start end' =
     (let len = int (length xs);
          k = relativeIndex len start;
          final = relativeIndex len end'
      in drop (nat k) (take (nat final) xs))"

text \<open>An indexed read \<^verbatim>\<open>xs[i]\<close>: \<^verbatim>\<open>undefined\<close> (here \<open>None\<close>) out of range.\<close>

definition at_index :: "'a list \<Rightarrow> int \<Rightarrow> 'a option" where
  "at_index xs i = (if 0 \<le> i \<and> i < int (length xs) then Some (xs ! nat i) else None)"

subsection \<open>Data model\<close>

text \<open>
  The objects built by \<^verbatim>\<open>createNewTab\<close>. The field \<^verbatim>\<open>id\<close> is \<open>id_tab\<close> here.
  \<^verbatim>\<open>url\<close> is declared a string; since \<^verbatim>\<open>handleBack\<close> and \<^verbatim>\<open>handleForward\<close> store
  an indexed read of \<^verbatim>\<open>history\<close> in it, it can hold \<^verbatim>\<open>undefined\<close>, which is \<open>None\<close>.
  \<^verbatim>\<open>error\<close> is \<^verbatim>\<open>string | null\<close>, with \<open>None\<close> for \<^verbatim>\<open>null\<close>. The history holds
  the url strings that \<^verbatim>\<open>Browser.tsx\<close> puts there, and the field \<^verbatim>\<open>addr\<close> that
  \<^verbatim>\<open>types.ts\<close> declares is never set by it. The index is a JavaScript number that
  only ever takes integer values.
\<close>

record Tab =
  id_tab :: string
  url :: "string option"
  title :: string
  history :: "string list"
  currentHistoryIndex :: int
  error :: "string option"

record BrowserState =
  tabs :: "Tab list"
  activeTabId :: string

text \<open>
  A \<^verbatim>\<open>Partial<Tab>\<close> object literal is the list of its key/value pairs, and the spread
  \<^verbatim>\<open>{ ...tab, ...updates }\<close> assigns them in order.
\<close>

datatype TabUpdate =
    SetId string
  | SetUrl "string option"
  | SetTitle string
  | SetHistory "string list"
  | SetCurrentHistoryIndex int
  | SetError "string option"

fun assign :: "TabUpdate \<Rightarrow> Tab \<Rightarrow> Tab" where
  "assign (SetId v) tab = tab\<lparr>id_tab := v\<rparr>"
| "assign (SetUrl v) tab = tab\<lparr>url := v\<rparr>"
| "assign (SetTitle v) tab = tab\<lparr>title := v\<rparr>"
| "assign (SetHistory v) tab = tab\<lparr>history := v\<rparr>"
| "assign (SetCurrentHistoryIndex v) tab = tab\<lparr>currentHistoryIndex := v\<rparr>"
| "assign (SetError v) tab = tab\<lparr>error := v\<rparr>"

definition spread :: "Tab \<Rightarrow> TabUpdate list \<Rightarrow> Tab" where
  "spread tab updates = fold assign updates tab"

subsection \<open>The handlers of \<^verbatim>\<open>Browser\<close>\<close>

text \<open>The argument of \<open>createNewTab\<close> is the string that \<^verbatim>\<open>uuidv4()\<close> returns.\<close>

definition createNewTab :: "string \<Rightarrow> Tab" where
  "createNewTab uuid =
     \<lparr>id_tab = uuid, url = Some '''', title = ''New Tab'', history = [''''],
      currentHistoryIndex = 0, error = None\<rparr>"

definition initialState :: "string \<Rightarrow> BrowserState" where
  "initialState uuid =
     (let initialTab = createNewTab uuid
      in \<lparr>tabs = [initialTab], activeTabId = id_tab initialTab\<rparr>)"

definition activeTab :: "BrowserState \<Rightarrow> Tab option" where
  "activeTab browserState =
     find (\<lambda>tab. id_tab tab = activeTabId browserState) (tabs browserState)"

definition updateActiveTab :: "TabUpdate list \<Rightarrow> BrowserState \<Rightarrow> BrowserState" where
  "updateActiveTab updates prev =
     prev\<lparr>tabs := map (\<lambda>tab. if id_tab tab = activeTabId prev then spread tab updates else tab)
                       (tabs prev)\<rparr>"

definition handleNavigate :: "string \<Rightarrow> BrowserState \<Rightarrow> exn + BrowserState" where
  "handleNavigate u s =
     (case activeTab s of
        None \<Rightarrow> Inl TypeError
      | Some a \<Rightarrow>
          (let newHistory = slice (history a) 0 (currentHistoryIndex a + 1) @ [u]
           in Inr (updateActiveTab
                     [SetUrl (Some u), SetHistory newHistory,
                      SetCurrentHistoryIndex (int (length newHistory) - 1),
                      SetError None] s)))"

definition handleNewTab :: "string \<Rightarrow> BrowserState \<Rightarrow> BrowserState" where
  "handleNewTab uuid prev =
     (let newTab = createNewTab uuid
      in \<lparr>tabs = tabs prev @ [newTab], activeTabId = id_tab newTab\<rparr>)"

definition handleCloseTab :: "string \<Rightarrow> string \<Rightarrow> BrowserState \<Rightarrow> BrowserState" where
  "handleCloseTab uuid tabId prev =
     (let newTabs = filter (\<lambda>tab. id_tab tab \<noteq> tabId) (tabs prev)
      in if length newTabs = 0
         then (let newTab = createNewTab uuid
               in \<lparr>tabs = [newTab], activeTabId = id_tab newTab\<rparr>)
         else \<lparr>tabs = newTabs,
               activeTabId = (if activeTabId prev = tabId then id_tab (newTabs ! 0)
                              else activeTabId prev)\<rparr>)"

definition handleBack :: "BrowserState \<Rightarrow> exn + BrowserState" where
  "handleBack s =
     (case activeTab s of
        None \<Rightarrow> Inl TypeError
      | Some a \<Rightarrow>
          if currentHistoryIndex a > 0
          then Inr (updateActiveTab
                      [SetCurrentHistoryIndex (currentHistoryIndex a - 1),
                       SetUrl (at_index (history a) (currentHistoryIndex a - 1)),
                       SetError None] s)
          else Inr s)"

definition handleForward :: "BrowserState \<Rightarrow> exn + BrowserState" where
  "handleForward s =
     (case activeTab s of
        None \<Rightarrow> Inl TypeError
      | Some a \<Rightarrow>
          if currentHistoryIndex a < int (length (history a)) - 1
          then Inr (updateActiveTab
                      [SetCurrentHistoryIndex (currentHistoryIndex a + 1),
                       SetUrl (at_index (history a) (currentHistoryIndex a + 1)),
                       SetError None] s)
          else Inr s)"

text \<open>
  \<open>handleRefresh\<close> queues its update and then reads \<^verbatim>\<open>activeTab.id\<close>. When that read
  throws, no tab carries \<^verbatim>\<open>activeTabId\<close>, so the queued update changes no tab.
\<close>

definition handleRefresh :: "BrowserState \<Rightarrow> exn + BrowserState" where
  "handleRefresh s =
     (case activeTab s of
        None \<Rightarrow> Inl TypeError
      | Some a \<Rightarrow> Inr (updateActiveTab [SetError None] s))"

definition handleIframeError :: "BrowserState \<Rightarrow> BrowserState" where
  "handleIframeError s =
     updateActiveTab
       [SetError (Some ''This website cannot be displayed in an iframe due to security restrictions.''),
        SetTitle ''Cannot Display Content''] s"

text \<open>
  \<open>getDomainFromUrl\<close> of \<^verbatim>\<open>types.ts\<close>. The platform's URL parser is the parameter
  \<open>hostname\<close>: \<open>None\<close> when \<^verbatim>\<open>new URL(url)\<close> throws.
\<close>

definition getDomainFromUrl :: "(string \<Rightarrow> string option) \<Rightarrow> string option \<Rightarrow> string" where
  "getDomainFromUrl hostname u =
     (case u of
        None \<Rightarrow> ''New Tab''
      | Some v \<Rightarrow>
          if v = '''' \<or> v = ''about:blank'' \<or> v = ''browser://newtab'' then ''New Tab''
          else (case hostname v of Some h \<Rightarrow> h | None \<Rightarrow> v))"

text \<open>
  \<open>handleIframeLoad\<close>: \<open>docTitle\<close> is what \<^verbatim>\<open>iframe.contentDocument?.title\<close> yields,
  \<open>None\<close> when it is \<^verbatim>\<open>undefined\<close> or the access throws. An empty title is falsy, and
  only then is \<^verbatim>\<open>activeTab.url\<close> read. \<open>domainTitle\<close> is the update both the
  \<^verbatim>\<open>try\<close> block and the \<^verbatim>\<open>catch\<close> block fall back to,
  \<^verbatim>\<open>updateActiveTab({ title: getDomainFromUrl(activeTab.url) })\<close>.
\<close>

definition domainTitle ::
  "(string \<Rightarrow> string option) \<Rightarrow> BrowserState \<Rightarrow> exn + BrowserState" where
  "domainTitle hostname s =
     (case activeTab s of
        None \<Rightarrow> Inl TypeError
      | Some a \<Rightarrow> Inr (updateActiveTab [SetTitle (getDomainFromUrl hostname (url a))] s))"

definition handleIframeLoad ::
  "(string \<Rightarrow> string option) \<Rightarrow> string option \<Rightarrow> BrowserState \<Rightarrow> exn + BrowserState" where
  "handleIframeLoad hostname docTitle s =
     (case docTitle of
        None \<Rightarrow> domainTitle hostname s
      | Some t \<Rightarrow> if t = '''' then domainTitle hostname s
                  else Inr (updateActiveTab [SetTitle t] s))"

definition onTabSelect :: "string \<Rightarrow> BrowserState \<Rightarrow> BrowserState" where
  "onTabSelect i prev = prev\<lparr>activeTabId := i\<rparr>"


subsection \<open>The address bar (\<^verbatim>\<open>src/components/AddressBar.tsx\<close>)\<close>

text \<open>
  Strings are sequences of code units below 256. \<^verbatim>\<open>String.prototype.trim\<close> removes
  white space and line terminators at both ends; in that range these are tab, line feed,
  vertical tab, form feed, carriage return, space and the no-break space.
\<close>

definition isWhiteSpace :: "char \<Rightarrow> bool" where
  "isWhiteSpace c =
     (c = CHR 0x09 \<or> c = CHR 0x0A \<or> c = CHR 0x0B \<or> c = CHR 0x0C \<or> c = CHR 0x0D \<or>
      c = CHR 0x20 \<or> c = CHR 0xA0)"

definition trim :: "string \<Rightarrow> string" where
  "trim s = rev (dropWhile isWhiteSpace (rev (dropWhile isWhiteSpace s)))"

definition startsWith :: "string \<Rightarrow> string \<Rightarrow> bool" where
  "startsWith s searchString = (take (length searchString) s = searchString)"

text \<open>
  \<open>handleKeyPress\<close> with the props and state it closes over: the callback
  \<^verbatim>\<open>onNavigate\<close>, the pressed key and the input's text. \<open>None\<close> when the callback
  is not called.
\<close>

definition handleKeyPress :: "(string \<Rightarrow> 'r) \<Rightarrow> string \<Rightarrow> string \<Rightarrow> 'r option" where
  "handleKeyPress onNavigate key inputValue =
     (if key = ''Enter''
      then (let u = trim inputValue;
                u = (if \<not> startsWith u ''http://'' \<and> \<not> startsWith u ''https://''
                     then ''https://'' @ u else u)
            in Some (onNavigate u))
      else None)"

subsection \<open>Properties of states\<close>

definition tabIds :: "BrowserState \<Rightarrow> string list" where
  "tabIds s = map id_tab (tabs s)"

definition cursorInRange :: "Tab \<Rightarrow> bool" where
  "cursorInRange tab =
     (0 \<le> currentHistoryIndex tab \<and> currentHistoryIndex tab < int (length (history tab)))"

text \<open>
  The invariant of the data model: the tab list is not empty, the active id is the id of
  a tab, no two tabs share an id, and every cursor points into its history.
\<close>

definition invariant :: "BrowserState \<Rightarrow> bool" where
  "invariant s =
     (tabs s \<noteq> [] \<and> activeTabId s \<in> set (tabIds s) \<and> distinct (tabIds s) \<and>
      list_all cursorInRange (tabs s))"


text \<open>The state left behind by a handler that may throw.\<close>

definition stateAfter :: "BrowserState \<Rightarrow> exn + BrowserState \<Rightarrow> BrowserState" where
  "stateAfter s r = (case r of Inl e \<Rightarrow> s | Inr s' \<Rightarrow> s')"

text \<open>An update that names the key \<^verbatim>\<open>id\<close>; no handler builds one.\<close>

fun setsId :: "TabUpdate \<Rightarrow> bool" where
  "setsId (SetId v) = True"
| "setsId u = False"

text \<open>
  The frame of a command on the active tab: the active id is the same, the tab list has
  the same length, every position holds a tab with the same id as before, and a tab whose
  id is not the active id is the same record as before.
\<close>

definition onlyActiveTabChanged :: "BrowserState \<Rightarrow> BrowserState \<Rightarrow> bool" where
  "onlyActiveTabChanged s s' =
     (activeTabId s' = activeTabId s \<and>
      list_all2 (\<lambda>tab tab'. id_tab tab' = id_tab tab \<and> (id_tab tab \<noteq> activeTabId s \<longrightarrow> tab' = tab))
        (tabs s) (tabs s'))"

text \<open>A sequence of \<open>handleNavigate\<close> calls, each on the state the previous one left.\<close>

fun navigateAll :: "string list \<Rightarrow> BrowserState \<Rightarrow> exn + BrowserState" where
  "navigateAll [] s = Inr s"
| "navigateAll (u # us) s =
     (case handleNavigate u s of Inl e \<Rightarrow> Inl e | Inr s' \<Rightarrow> navigateAll us s')"

text \<open>
  The normalisation in the words of the specification, for comparison with
  \<open>handleKeyPress\<close>: a url that lacks a recognised scheme prefix gets the default secure
  scheme prefix prepended, any other url is kept.
\<close>

definition prependDefaultScheme :: "string \<Rightarrow> string" where
  "prependDefaultScheme u =
     (if startsWith u ''http://'' \<or> startsWith u ''https://'' then u else ''https://'' @ u)"

subsection \<open>Example states\<close>

text \<open>
  Two tabs, the first active, in the middle of its history and showing a load error; the
  second as \<open>createNewTab\<close> makes it.
\<close>

definition exampleTab :: Tab where
  "exampleTab =
     \<lparr>id_tab = ''t0'', url = Some ''https://a.test'', title = ''Cannot Display Content'',
      history = ['''', ''https://a.test'', ''https://b.test''], currentHistoryIndex = 1,
      error = Some ''blocked''\<rparr>"

definition exampleState :: BrowserState where
  "exampleState = \<lparr>tabs = [exampleTab, createNewTab ''t1''], activeTabId = ''t0''\<rparr>"


section \<open>Auxiliary facts\<close>

subsection \<open>Updates of the active tab\<close>

lemma id_tab_assign: "\<not> setsId u \<Longrightarrow> id_tab (assign u tab) = id_tab tab"
  by (cases u) simp_all

lemma id_tab_spread: "\<not> list_ex setsId us \<Longrightarrow> id_tab (spread tab us) = id_tab tab"
  unfolding spread_def by (induction us arbitrary: tab) (simp_all add: id_tab_assign)

lemma find_map_id_tab:
  assumes "\<And>tab. id_tab (f tab) = id_tab tab"
  shows "find (\<lambda>tab. id_tab tab = i) (map f ts) = map_option f (find (\<lambda>tab. id_tab tab = i) ts)"
  by (induction ts) (simp_all add: assms)

lemma activeTabId_updateActiveTab [simp]: "activeTabId (updateActiveTab us s) = activeTabId s"
  by (simp add: updateActiveTab_def)

lemma tabIds_updateActiveTab:
  "\<not> list_ex setsId us \<Longrightarrow> tabIds (updateActiveTab us s) = tabIds s"
  by (simp add: tabIds_def updateActiveTab_def id_tab_spread)

lemma find_Some_id: "find (\<lambda>tab. id_tab tab = i) ts = Some a \<Longrightarrow> id_tab a = i \<and> a \<in> set ts"
  by (induction ts) (auto split: if_splits)

lemma activeTab_id: "activeTab s = Some a \<Longrightarrow> id_tab a = activeTabId s \<and> a \<in> set (tabs s)"
  unfolding activeTab_def by (rule find_Some_id)

lemma activeTab_updateActiveTab:
  assumes "\<not> list_ex setsId us" and "activeTab s = Some a"
  shows "activeTab (updateActiveTab us s) = Some (spread a us)"
proof -
  let ?f = "\<lambda>tab. if id_tab tab = activeTabId s then spread tab us else tab"
  have "\<And>tab. id_tab (?f tab) = id_tab tab"
    using assms(1) by (simp add: id_tab_spread)
  then have "find (\<lambda>tab. id_tab tab = activeTabId s) (map ?f (tabs s))
      = map_option ?f (find (\<lambda>tab. id_tab tab = activeTabId s) (tabs s))"
    by (rule find_map_id_tab)
  with assms(2) activeTab_id [OF assms(2)] show ?thesis
    by (simp add: activeTab_def updateActiveTab_def)
qed

lemma onlyActiveTabChanged_refl: "onlyActiveTabChanged s s"
  by (simp add: onlyActiveTabChanged_def list_all2_same)

lemma onlyActiveTabChanged_updateActiveTab:
  "\<not> list_ex setsId us \<Longrightarrow> onlyActiveTabChanged s (updateActiveTab us s)"
  by (simp add: onlyActiveTabChanged_def updateActiveTab_def list_all2_map2 list_all2_same id_tab_spread)

lemma onlyActiveTabChanged_handleNavigate: "onlyActiveTabChanged s (stateAfter s (handleNavigate u s))"
  by (simp add: handleNavigate_def stateAfter_def Let_def onlyActiveTabChanged_refl
      onlyActiveTabChanged_updateActiveTab split: option.split)

lemma onlyActiveTabChanged_handleBack: "onlyActiveTabChanged s (stateAfter s (handleBack s))"
  by (simp add: handleBack_def stateAfter_def onlyActiveTabChanged_refl
      onlyActiveTabChanged_updateActiveTab split: option.split)

lemma onlyActiveTabChanged_handleForward: "onlyActiveTabChanged s (stateAfter s (handleForward s))"
  by (simp add: handleForward_def stateAfter_def onlyActiveTabChanged_refl
      onlyActiveTabChanged_updateActiveTab split: option.split)

lemma onlyActiveTabChanged_handleRefresh: "onlyActiveTabChanged s (stateAfter s (handleRefresh s))"
  by (simp add: handleRefresh_def stateAfter_def onlyActiveTabChanged_refl
      onlyActiveTabChanged_updateActiveTab split: option.split)

lemma onlyActiveTabChanged_handleIframeError: "onlyActiveTabChanged s (handleIframeError s)"
  by (simp add: handleIframeError_def onlyActiveTabChanged_updateActiveTab)

lemma onlyActiveTabChanged_handleIframeLoad:
  "onlyActiveTabChanged s (stateAfter s (handleIframeLoad hostname docTitle s))"
  by (simp add: handleIframeLoad_def domainTitle_def stateAfter_def onlyActiveTabChanged_refl
      onlyActiveTabChanged_updateActiveTab split: option.split)

subsection \<open>Preservation of the invariant\<close>

lemma same_id_same_tab:
  "distinct (map id_tab ts) \<Longrightarrow> a \<in> set ts \<Longrightarrow> b \<in> set ts \<Longrightarrow> id_tab a = id_tab b \<Longrightarrow> a = b"
  by (simp add: distinct_map inj_on_def)

lemma list_all_mapI: "(\<And>x. x \<in> set xs \<Longrightarrow> P (f x)) \<Longrightarrow> list_all P (map f xs)"
  by (induction xs) simp_all

lemma activeTab_Some: "activeTabId s \<in> set (tabIds s) \<Longrightarrow> \<exists>a. activeTab s = Some a"
proof -
  assume "activeTabId s \<in> set (tabIds s)"
  then have "find (\<lambda>tab. id_tab tab = activeTabId s) (tabs s) \<noteq> None"
    by (auto simp: tabIds_def find_None_iff)
  then show ?thesis by (simp add: activeTab_def)
qed

lemma invariant_updateActiveTab:
  assumes inv: "invariant s" and ids: "\<not> list_ex setsId us"
    and act: "activeTab s = Some a" and cur: "cursorInRange (spread a us)"
  shows "invariant (updateActiveTab us s)"
proof -
  have d: "distinct (map id_tab (tabs s))" and r: "list_all cursorInRange (tabs s)"
    using inv by (simp_all add: invariant_def tabIds_def)
  have "tabs (updateActiveTab us s) \<noteq> []"
    using inv by (simp add: invariant_def updateActiveTab_def)
  moreover have "activeTabId (updateActiveTab us s) \<in> set (tabIds (updateActiveTab us s))"
    using inv ids by (simp add: invariant_def tabIds_updateActiveTab)
  moreover have "distinct (tabIds (updateActiveTab us s))"
    using inv ids by (simp add: invariant_def tabIds_updateActiveTab)
  moreover have "list_all cursorInRange (tabs (updateActiveTab us s))"
  proof -
    have "cursorInRange (if id_tab tab = activeTabId s then spread tab us else tab)"
      if "tab \<in> set (tabs s)" for tab
    proof (cases "id_tab tab = activeTabId s")
      case True
      with activeTab_id [OF act] that d have "tab = a"
        by (metis same_id_same_tab)
      with True cur show ?thesis by simp
    next
      case False
      with that r show ?thesis by (simp add: list_all_iff)
    qed
    then have "list_all cursorInRange
        (map (\<lambda>tab. if id_tab tab = activeTabId s then spread tab us else tab) (tabs s))"
      by (rule list_all_mapI)
    then show ?thesis by (simp add: updateActiveTab_def)
  qed
  ultimately show ?thesis by (simp add: invariant_def)
qed

lemma activeTab_cursorInRange: "invariant s \<Longrightarrow> activeTab s = Some a \<Longrightarrow> cursorInRange a"
  using activeTab_id [of s a] by (simp add: invariant_def list_all_iff)

lemma invariant_handleNavigate:
  assumes "invariant s" shows "\<exists>s'. handleNavigate u s = Inr s' \<and> invariant s'"
proof -
  from assms obtain a where a: "activeTab s = Some a"
    using activeTab_Some by (auto simp: invariant_def)
  let ?h = "slice (history a) 0 (currentHistoryIndex a + 1) @ [u]"
  let ?us = "[SetUrl (Some u), SetHistory ?h, SetCurrentHistoryIndex (int (length ?h) - 1), SetError None]"
  have "cursorInRange (spread a ?us)" by (simp add: spread_def cursorInRange_def)
  with assms a have "invariant (updateActiveTab ?us s)"
    by (intro invariant_updateActiveTab) simp_all
  with a show ?thesis by (simp add: handleNavigate_def Let_def)
qed

lemma invariant_handleBack:
  assumes "invariant s" shows "\<exists>s'. handleBack s = Inr s' \<and> invariant s'"
proof -
  from assms obtain a where a: "activeTab s = Some a"
    using activeTab_Some by (auto simp: invariant_def)
  let ?us = "[SetCurrentHistoryIndex (currentHistoryIndex a - 1),
              SetUrl (at_index (history a) (currentHistoryIndex a - 1)), SetError None]"
  show ?thesis
  proof (cases "currentHistoryIndex a > 0")
    case True
    with activeTab_cursorInRange [OF assms a] have "cursorInRange (spread a ?us)"
      by (simp add: spread_def cursorInRange_def)
    with assms a have "invariant (updateActiveTab ?us s)"
      by (intro invariant_updateActiveTab) simp_all
    with a True show ?thesis by (simp add: handleBack_def)
  next
    case False
    with a assms show ?thesis by (simp add: handleBack_def)
  qed
qed

lemma invariant_handleForward:
  assumes "invariant s" shows "\<exists>s'. handleForward s = Inr s' \<and> invariant s'"
proof -
  from assms obtain a where a: "activeTab s = Some a"
    using activeTab_Some by (auto simp: invariant_def)
  let ?us = "[SetCurrentHistoryIndex (currentHistoryIndex a + 1),
              SetUrl (at_index (history a) (currentHistoryIndex a + 1)), SetError None]"
  show ?thesis
  proof (cases "currentHistoryIndex a < int (length (history a)) - 1")
    case True
    with activeTab_cursorInRange [OF assms a] have "cursorInRange (spread a ?us)"
      by (simp add: spread_def cursorInRange_def)
    with assms a have "invariant (updateActiveTab ?us s)"
      by (intro invariant_updateActiveTab) simp_all
    with a True show ?thesis by (simp add: handleForward_def)
  next
    case False
    with a assms show ?thesis by (simp add: handleForward_def)
  qed
qed

lemma invariant_handleRefresh:
  assumes "invariant s" shows "\<exists>s'. handleRefresh s = Inr s' \<and> invariant s'"
proof -
  from assms obtain a where a: "activeTab s = Some a"
    using activeTab_Some by (auto simp: invariant_def)
  from activeTab_cursorInRange [OF assms a] have "cursorInRange (spread a [SetError None])"
    by (simp add: spread_def cursorInRange_def)
  with assms a have "invariant (updateActiveTab [SetError None] s)"
    by (intro invariant_updateActiveTab) simp_all
  with a show ?thesis by (simp add: handleRefresh_def)
qed

lemma invariant_handleNewTab:
  "invariant s \<Longrightarrow> uuid \<notin> set (tabIds s) \<Longrightarrow> invariant (handleNewTab uuid s)"
  by (simp add: invariant_def handleNewTab_def Let_def createNewTab_def tabIds_def cursorInRange_def)

lemma invariant_handleCloseTab:
  assumes "invariant s" shows "invariant (handleCloseTab uuid i s)"
proof (cases "filter (\<lambda>tab. id_tab tab \<noteq> i) (tabs s)")
  case Nil
  then show ?thesis
    by (simp add: handleCloseTab_def Let_def invariant_def createNewTab_def tabIds_def cursorInRange_def)
next
  case (Cons t ts)
  let ?new = "filter (\<lambda>tab. id_tab tab \<noteq> i) (tabs s)"
  have tabs': "tabs (handleCloseTab uuid i s) = ?new"
    and act': "activeTabId (handleCloseTab uuid i s)
        = (if activeTabId s = i then id_tab t else activeTabId s)"
    using Cons by (simp_all add: handleCloseTab_def Let_def)
  have "distinct (map id_tab ?new)"
    using assms by (simp add: invariant_def tabIds_def distinct_map_filter)
  moreover have "list_all cursorInRange ?new"
    using assms by (simp add: invariant_def list_all_iff)
  moreover have "(if activeTabId s = i then id_tab t else activeTabId s) \<in> set (map id_tab ?new)"
  proof (cases "activeTabId s = i")
    case True
    with Cons show ?thesis by simp
  next
    case False
    with assms show ?thesis by (auto simp: invariant_def tabIds_def)
  qed
  ultimately show ?thesis
    using Cons by (simp add: invariant_def tabIds_def tabs' act')
qed

lemma invariant_onTabSelect:
  "invariant s \<Longrightarrow> i \<in> set (tabIds s) \<Longrightarrow> invariant (onTabSelect i s)"
  by (simp add: invariant_def onTabSelect_def tabIds_def)

subsection \<open>History navigation\<close>

lemma slice_prefix:
  "0 \<le> i \<Longrightarrow> i < int (length xs) \<Longrightarrow> slice xs 0 (i + 1) = take (nat i + 1) xs"
  by (simp add: slice_def relativeIndex_def Let_def nat_add_distrib)

lemma slice_all: "slice xs 0 (int (length xs)) = xs"
  by (simp add: slice_def relativeIndex_def Let_def)

lemma handleNavigate_active:
  assumes "activeTab s = Some a"
  shows "\<exists>s'. handleNavigate u s = Inr s' \<and>
           activeTab s' = Some (a\<lparr>url := Some u,
             history := slice (history a) 0 (currentHistoryIndex a + 1) @ [u],
             currentHistoryIndex := int (length (slice (history a) 0 (currentHistoryIndex a + 1))),
             error := None\<rparr>)"
proof -
  let ?h = "slice (history a) 0 (currentHistoryIndex a + 1) @ [u]"
  let ?us = "[SetUrl (Some u), SetHistory ?h, SetCurrentHistoryIndex (int (length ?h) - 1), SetError None]"
  have "activeTab (updateActiveTab ?us s) = Some (spread a ?us)"
    using assms by (intro activeTab_updateActiveTab) simp_all
  with assms show ?thesis
    by (simp add: handleNavigate_def Let_def spread_def)
qed

lemma navigateAll_history:
  assumes "activeTab s = Some a"
    and "currentHistoryIndex a = int (length (history a)) - 1" and "history a \<noteq> []"
  shows "\<exists>s' a'. navigateAll ds s = Inr s' \<and> activeTab s' = Some a' \<and>
           history a' = history a @ ds \<and>
           currentHistoryIndex a' = int (length (history a')) - 1"
  using assms
proof (induction ds arbitrary: s a)
  case Nil
  then show ?case by simp
next
  case (Cons d ds)
  let ?a1 = "a\<lparr>url := Some d,
             history := slice (history a) 0 (currentHistoryIndex a + 1) @ [d],
             currentHistoryIndex := int (length (slice (history a) 0 (currentHistoryIndex a + 1))),
             error := None\<rparr>"
  from handleNavigate_active [OF Cons.prems(1), of d]
  obtain s1 where s1: "handleNavigate d s = Inr s1" "activeTab s1 = Some ?a1"
    by blast
  have h1: "history ?a1 = history a @ [d]"
    using Cons.prems(2) by (simp add: slice_all)
  have "\<exists>s' a'. navigateAll ds s1 = Inr s' \<and> activeTab s' = Some a' \<and>
           history a' = history ?a1 @ ds \<and>
           currentHistoryIndex a' = int (length (history a')) - 1"
    using s1(2) Cons.prems(2) by (intro Cons.IH) (simp_all add: slice_all)
  with s1(1) h1 show ?case by simp
qed

lemma activeTab_initialState: "activeTab (initialState uuid) = Some (createNewTab uuid)"
  by (simp add: activeTab_def initialState_def Let_def createNewTab_def)

lemma slice_tail:
  "slice (x # xs) 1 (int (length (x # xs)) - 1 + 1) = xs"
  by (simp add: slice_def relativeIndex_def Let_def)

lemma handleBack_active:
  assumes "activeTab s = Some a" and "0 < currentHistoryIndex a"
  shows "\<exists>s'. handleBack s = Inr s' \<and>
           activeTab s' = Some (a\<lparr>currentHistoryIndex := currentHistoryIndex a - 1,
             url := at_index (history a) (currentHistoryIndex a - 1), error := None\<rparr>)"
proof -
  let ?us = "[SetCurrentHistoryIndex (currentHistoryIndex a - 1),
              SetUrl (at_index (history a) (currentHistoryIndex a - 1)), SetError None]"
  have "activeTab (updateActiveTab ?us s) = Some (spread a ?us)"
    using assms by (intro activeTab_updateActiveTab) simp_all
  with assms show ?thesis
    by (simp add: handleBack_def spread_def)
qed

lemma handleForward_active:
  assumes "activeTab s = Some a" and "currentHistoryIndex a < int (length (history a)) - 1"
  shows "\<exists>s'. handleForward s = Inr s' \<and>
           activeTab s' = Some (a\<lparr>currentHistoryIndex := currentHistoryIndex a + 1,
             url := at_index (history a) (currentHistoryIndex a + 1), error := None\<rparr>)"
proof -
  let ?us = "[SetCurrentHistoryIndex (currentHistoryIndex a + 1),
              SetUrl (at_index (history a) (currentHistoryIndex a + 1)), SetError None]"
  have "activeTab (updateActiveTab ?us s) = Some (spread a ?us)"
    using assms by (intro activeTab_updateActiveTab) simp_all
  with assms show ?thesis
    by (simp add: handleForward_def spread_def)
qed




subsection \<open>Closing tabs\<close>

lemma filter_other_ids:
  fixes ts :: "Tab list"
  assumes "distinct (map id_tab (t # ts))"
  shows "filter (\<lambda>tab. id_tab tab \<noteq> id_tab t) ts = ts"
proof -
  from assms have "id_tab t \<notin> id_tab ` set ts" by simp
  then have "\<forall>tab\<in>set ts. id_tab tab \<noteq> id_tab t" by (metis imageI)
  then show ?thesis by (simp add: filter_id_conv)
qed

lemma filter_remove_nth:
  fixes ts :: "Tab list"
  shows "distinct (map id_tab ts) \<Longrightarrow> k < length ts \<Longrightarrow> id_tab (ts ! k) = i \<Longrightarrow>
   filter (\<lambda>tab. id_tab tab \<noteq> i) ts = take k ts @ drop (Suc k) ts"
proof (induction ts arbitrary: k)
  case Nil
  then show ?case by simp
next
  case (Cons t ts)
  show ?case
  proof (cases k)
    case 0
    with Cons.prems have "id_tab t = i" by simp
    with filter_other_ids [OF Cons.prems(1)] 0 show ?thesis by simp
  next
    case (Suc j)
    with Cons.prems have "id_tab t \<noteq> i" by auto
    moreover have "filter (\<lambda>tab. id_tab tab \<noteq> i) ts = take j ts @ drop (Suc j) ts"
      using Cons.prems Suc by (intro Cons.IH) simp_all
    ultimately show ?thesis using Suc by simp
  qed
qed

lemma filter_length_ge:
  fixes ts :: "Tab list"
  shows "distinct (map id_tab ts) \<Longrightarrow> length ts - 1 \<le> length (filter (\<lambda>tab. id_tab tab \<noteq> i) ts)"
proof (induction ts)
  case Nil
  then show ?case by simp
next
  case (Cons t ts)
  show ?case
  proof (cases "id_tab t = i")
    case True
    with filter_other_ids [OF Cons.prems] show ?thesis by simp
  next
    case False
    with Cons show ?thesis by simp
  qed
qed

subsection \<open>The address bar\<close>

lemma startsWith_prepend: "startsWith (''https://'' @ u) ''https://''"
  by (simp add: startsWith_def)

subsection \<open>The example states\<close>

lemma activeTab_exampleState: "activeTab exampleState = Some exampleTab"
  by (simp add: activeTab_def exampleState_def exampleTab_def)

lemma tabIds_exampleState: "tabIds exampleState = [''t0'', ''t1'']"
  by (simp add: tabIds_def exampleState_def exampleTab_def createNewTab_def)

lemma invariant_exampleState: "invariant exampleState"
  by (simp add: invariant_def tabIds_exampleState)
     (simp add: exampleState_def exampleTab_def createNewTab_def cursorInRange_def)

section \<open>The claims\<close>

subsection \<open>C1\<close>

text \<open>
  Claim C1, as the code has it. \<^verbatim>\<open>onTabSelect\<close> stores the id it is given without
  looking it up. For every state and every id that is not the id of a tab, selecting it
  leaves \<open>tabs\<close> as it was and makes the unknown id the active id, so that the active
  pointer resolves to no tab afterwards. The state is not the input state.
\<close>

theorem C1_onTabSelect_unknown_id:
  assumes "i \<notin> set (tabIds s)"
  shows "tabs (onTabSelect i s) = tabs s \<and> activeTabId (onTabSelect i s) = i \<and>
         activeTab (onTabSelect i s) = None"
  using assms by (auto simp: onTabSelect_def activeTab_def tabIds_def find_None_iff)

theorem C1_onTabSelect_unknown_id_witness:
  "''zz'' \<notin> set (tabIds exampleState) \<and>
   tabs (onTabSelect ''zz'' exampleState) = tabs exampleState \<and>
   activeTabId (onTabSelect ''zz'' exampleState) = ''zz'' \<and>
   activeTab (onTabSelect ''zz'' exampleState) = None"
  using C1_onTabSelect_unknown_id [of "''zz''" exampleState] by (simp add: tabIds_exampleState)

theorem C1_onTabSelect_unknown_id_counterexample:
  "''zz'' \<notin> set (tabIds (initialState ''t0'')) \<and>
   onTabSelect ''zz'' (initialState ''t0'') \<noteq> initialState ''t0''"
  by (simp add: tabIds_def initialState_def Let_def createNewTab_def onTabSelect_def)

subsection \<open>C2\<close>

text \<open>
  Claim C2, as the code has it. From a state that satisfies the invariant (tabs not
  empty, the active id the id of a tab, no id shared, every cursor inside its history),
  navigate, back, forward and refresh return without throwing and their successor state
  satisfies the invariant; so does the successor of closeTab for every id, that of openTab
  when the generated id is not yet the id of a tab, and that of selectTab when the selected
  id is the id of a tab. \<^verbatim>\<open>onTabSelect\<close> with an id of no tab breaks the invariant.
\<close>

theorem C2_invariant_preserved:
  assumes "invariant s"
  shows "(\<exists>s'. handleNavigate u s = Inr s' \<and> invariant s') \<and>
         (\<exists>s'. handleBack s = Inr s' \<and> invariant s') \<and>
         (\<exists>s'. handleForward s = Inr s' \<and> invariant s') \<and>
         (\<exists>s'. handleRefresh s = Inr s' \<and> invariant s') \<and>
         (uuid \<notin> set (tabIds s) \<longrightarrow> invariant (handleNewTab uuid s)) \<and>
         invariant (handleCloseTab uuid i s) \<and>
         (i \<in> set (tabIds s) \<longrightarrow> invariant (onTabSelect i s))"
  using assms
  by (simp add: invariant_handleNavigate invariant_handleBack invariant_handleForward
      invariant_handleRefresh invariant_handleNewTab invariant_handleCloseTab
      invariant_onTabSelect)

theorem C2_invariant_preserved_witness:
  "invariant exampleState \<and> ''t2'' \<notin> set (tabIds exampleState) \<and> ''t1'' \<in> set (tabIds exampleState) \<and>
   (\<exists>s'. handleNavigate ''https://c.test'' exampleState = Inr s' \<and> invariant s') \<and>
   (\<exists>s'. handleBack exampleState = Inr s' \<and> invariant s') \<and>
   (\<exists>s'. handleForward exampleState = Inr s' \<and> invariant s') \<and>
   (\<exists>s'. handleRefresh exampleState = Inr s' \<and> invariant s') \<and>
   invariant (handleNewTab ''t2'' exampleState) \<and>
   invariant (handleCloseTab ''t2'' ''t1'' exampleState) \<and>
   invariant (onTabSelect ''t1'' exampleState)"
  using C2_invariant_preserved [OF invariant_exampleState, of "''https://c.test''" "''t2''" "''t1''"]
  by (simp add: invariant_exampleState tabIds_exampleState)

theorem C2_invariant_preserved_counterexample:
  "invariant (initialState ''t0'') \<and> \<not> invariant (onTabSelect ''zz'' (initialState ''t0''))"
  by (simp add: invariant_def tabIds_def initialState_def Let_def createNewTab_def
      onTabSelect_def cursorInRange_def)

subsection \<open>C3\<close>

text \<open>
  Claim C3. When the active tab's cursor points into its history, navigating to a
  destination leaves the entries up to and including the cursor, followed by the
  destination, and the cursor on the new last index. After every call of a sequence of
  navigations from the initial state the cursor is the last index, the history is the
  empty first entry followed by the destinations navigated so far, duplicates included,
  and the entries from index 1 to the cursor are exactly those destinations.
\<close>

theorem C3_navigate_history:
  assumes "activeTab s = Some a"
    and "0 \<le> currentHistoryIndex a" and "currentHistoryIndex a < int (length (history a))"
  shows "(\<exists>s' a'. handleNavigate d s = Inr s' \<and> activeTab s' = Some a' \<and>
            history a' = take (nat (currentHistoryIndex a) + 1) (history a) @ [d] \<and>
            currentHistoryIndex a' = int (length (history a')) - 1) \<and>
         (\<forall>k\<le>length ds. \<exists>s' a'.
            navigateAll (take k ds) (initialState uuid) = Inr s' \<and> activeTab s' = Some a' \<and>
            currentHistoryIndex a' = int (length (history a')) - 1 \<and>
            history a' = '''' # take k ds \<and>
            slice (history a') 1 (currentHistoryIndex a' + 1) = take k ds)"
proof (intro conjI allI impI)
  from handleNavigate_active [OF assms(1), of d] assms(2,3)
  show "\<exists>s' a'. handleNavigate d s = Inr s' \<and> activeTab s' = Some a' \<and>
            history a' = take (nat (currentHistoryIndex a) + 1) (history a) @ [d] \<and>
            currentHistoryIndex a' = int (length (history a')) - 1"
    by (auto simp: slice_prefix)
next
  fix k
  have "\<exists>s' a'. navigateAll (take k ds) (initialState uuid) = Inr s' \<and> activeTab s' = Some a' \<and>
           history a' = history (createNewTab uuid) @ take k ds \<and>
           currentHistoryIndex a' = int (length (history a')) - 1"
    by (intro navigateAll_history activeTab_initialState) (simp_all add: createNewTab_def)
  then obtain s' a' where *: "navigateAll (take k ds) (initialState uuid) = Inr s'"
    "activeTab s' = Some a'" "history a' = '''' # take k ds"
    "currentHistoryIndex a' = int (length (history a')) - 1"
    by (auto simp: createNewTab_def)
  have "slice (history a') 1 (currentHistoryIndex a' + 1) = take k ds"
    unfolding *(4) unfolding *(3) by (rule slice_tail)
  with * show "\<exists>s' a'.
            navigateAll (take k ds) (initialState uuid) = Inr s' \<and> activeTab s' = Some a' \<and>
            currentHistoryIndex a' = int (length (history a')) - 1 \<and>
            history a' = '''' # take k ds \<and>
            slice (history a') 1 (currentHistoryIndex a' + 1) = take k ds"
    by blast
qed

theorem C3_navigate_history_witness:
  "activeTab exampleState = Some exampleTab \<and>
   0 \<le> currentHistoryIndex exampleTab \<and>
   currentHistoryIndex exampleTab < int (length (history exampleTab)) \<and>
   (\<exists>s' a'. handleNavigate ''https://c.test'' exampleState = Inr s' \<and> activeTab s' = Some a' \<and>
      history a' = ['''', ''https://a.test'', ''https://c.test''] \<and>
      currentHistoryIndex a' = 2) \<and>
   (\<exists>s' a'. navigateAll [''a.test''] (initialState ''t0'') = Inr s' \<and> activeTab s' = Some a' \<and>
      currentHistoryIndex a' = 1 \<and> history a' = ['''', ''a.test''] \<and>
      slice (history a') 1 (currentHistoryIndex a' + 1) = [''a.test'']) \<and>
   (\<exists>s' a'. navigateAll [''a.test'', ''a.test''] (initialState ''t0'') = Inr s' \<and>
      activeTab s' = Some a' \<and>
      currentHistoryIndex a' = 2 \<and> history a' = ['''', ''a.test'', ''a.test''] \<and>
      slice (history a') 1 (currentHistoryIndex a' + 1) = [''a.test'', ''a.test''])"
proof -
  have h: "0 \<le> currentHistoryIndex exampleTab"
    "currentHistoryIndex exampleTab < int (length (history exampleTab))"
    by (simp_all add: exampleTab_def)
  note c = C3_navigate_history [OF activeTab_exampleState h,
      of "''https://c.test''" "[''a.test'', ''a.test'']" "''t0''"]
  from c have "\<exists>s' a'. handleNavigate ''https://c.test'' exampleState = Inr s' \<and>
      activeTab s' = Some a' \<and>
      history a' = ['''', ''https://a.test'', ''https://c.test''] \<and>
      currentHistoryIndex a' = 2"
    by (auto simp: exampleTab_def)
  moreover from c have all: "\<forall>k\<le>length [''a.test'', ''a.test'']. \<exists>s' a'.
      navigateAll (take k [''a.test'', ''a.test'']) (initialState ''t0'') = Inr s' \<and>
      activeTab s' = Some a' \<and>
      currentHistoryIndex a' = int (length (history a')) - 1 \<and>
      history a' = '''' # take k [''a.test'', ''a.test''] \<and>
      slice (history a') 1 (currentHistoryIndex a' + 1) = take k [''a.test'', ''a.test'']"
    by (rule conjunct2)
  from all [rule_format, of 1]
  have "\<exists>s' a'. navigateAll [''a.test''] (initialState ''t0'') = Inr s' \<and>
      activeTab s' = Some a' \<and>
      currentHistoryIndex a' = 1 \<and> history a' = ['''', ''a.test''] \<and>
      slice (history a') 1 (currentHistoryIndex a' + 1) = [''a.test'']"
    by auto
  moreover from all [rule_format, of 2]
  have "\<exists>s' a'. navigateAll [''a.test'', ''a.test''] (initialState ''t0'') = Inr s' \<and>
      activeTab s' = Some a' \<and>
      currentHistoryIndex a' = 2 \<and> history a' = ['''', ''a.test'', ''a.test''] \<and>
      slice (history a') 1 (currentHistoryIndex a' + 1) = [''a.test'', ''a.test'']"
    by auto
  ultimately show ?thesis
    using activeTab_exampleState h by blast
qed

subsection \<open>C4\<close>

text \<open>
  Claim C4. In a state whose active tab has its cursor inside its history: if the cursor
  is positive, back followed by forward succeeds and leaves the active tab with the cursor
  and history it had and with the url \<open>history ! cursor\<close> (the load error is cleared); back
  with the cursor at 0 and forward with the cursor at the last index return the state
  unchanged.
\<close>

theorem C4_back_forward:
  assumes "activeTab s = Some a"
    and "0 \<le> currentHistoryIndex a" and "currentHistoryIndex a < int (length (history a))"
  shows "(0 < currentHistoryIndex a \<longrightarrow>
            (\<exists>s1 s2. handleBack s = Inr s1 \<and> handleForward s1 = Inr s2 \<and>
               activeTab s2 = Some (a\<lparr>url := Some (history a ! nat (currentHistoryIndex a)),
                                        error := None\<rparr>))) \<and>
         (currentHistoryIndex a = 0 \<longrightarrow> handleBack s = Inr s) \<and>
         (currentHistoryIndex a = int (length (history a)) - 1 \<longrightarrow> handleForward s = Inr s)"
proof (intro conjI impI)
  assume pos: "0 < currentHistoryIndex a"
  let ?a1 = "a\<lparr>currentHistoryIndex := currentHistoryIndex a - 1,
             url := at_index (history a) (currentHistoryIndex a - 1), error := None\<rparr>"
  from handleBack_active [OF assms(1) pos]
  obtain s1 where s1: "handleBack s = Inr s1" "activeTab s1 = Some ?a1"
    by blast
  have "currentHistoryIndex ?a1 < int (length (history ?a1)) - 1"
    using assms(3) by simp
  from handleForward_active [OF s1(2) this]
  obtain s2 where s2: "handleForward s1 = Inr s2"
    "activeTab s2 = Some (?a1\<lparr>currentHistoryIndex := currentHistoryIndex ?a1 + 1,
             url := at_index (history ?a1) (currentHistoryIndex ?a1 + 1), error := None\<rparr>)"
    by blast
  have "?a1\<lparr>currentHistoryIndex := currentHistoryIndex ?a1 + 1,
             url := at_index (history ?a1) (currentHistoryIndex ?a1 + 1), error := None\<rparr>
        = a\<lparr>url := Some (history a ! nat (currentHistoryIndex a)), error := None\<rparr>"
    using assms(2,3) by (simp add: at_index_def)
  with s1(1) s2 show "\<exists>s1 s2. handleBack s = Inr s1 \<and> handleForward s1 = Inr s2 \<and>
               activeTab s2 = Some (a\<lparr>url := Some (history a ! nat (currentHistoryIndex a)),
                                        error := None\<rparr>)"
    by simp
next
  assume "currentHistoryIndex a = 0"
  with assms(1) show "handleBack s = Inr s" by (simp add: handleBack_def)
next
  assume "currentHistoryIndex a = int (length (history a)) - 1"
  with assms(1) show "handleForward s = Inr s" by (simp add: handleForward_def)
qed

theorem C4_back_forward_witness:
  "activeTab exampleState = Some exampleTab \<and>
   0 < currentHistoryIndex exampleTab \<and>
   currentHistoryIndex exampleTab < int (length (history exampleTab)) \<and>
   (\<exists>s1 s2. handleBack exampleState = Inr s1 \<and> handleForward s1 = Inr s2 \<and>
      activeTab s2 = Some (exampleTab\<lparr>url := Some ''https://a.test'', error := None\<rparr>))"
  using C4_back_forward [of exampleState exampleTab]
  by (simp add: activeTab_exampleState) (simp add: exampleTab_def)

subsection \<open>C5\<close>

text \<open>
  Claim C5. Closing the only tab of a state yields a state with exactly one tab, the one
  \<open>createNewTab\<close> makes (empty url, title "New Tab", history of the one empty entry, cursor
  0, no error), and that tab's id is the active id.
\<close>

theorem C5_close_only_tab:
  assumes "tabs s = [tab]"
  shows "handleCloseTab uuid (id_tab tab) s = \<lparr>tabs = [createNewTab uuid], activeTabId = uuid\<rparr> \<and>
         createNewTab uuid =
           \<lparr>id_tab = uuid, url = Some '''', title = ''New Tab'', history = [''''],
            currentHistoryIndex = 0, error = None\<rparr>"
  using assms by (simp add: handleCloseTab_def Let_def createNewTab_def)

theorem C5_close_only_tab_witness:
  "tabs (initialState ''t0'') = [createNewTab ''t0''] \<and>
   handleCloseTab ''t9'' ''t0'' (initialState ''t0'')
     = \<lparr>tabs = [\<lparr>id_tab = ''t9'', url = Some '''', title = ''New Tab'', history = [''''],
                  currentHistoryIndex = 0, error = None\<rparr>], activeTabId = ''t9''\<rparr>"
  using C5_close_only_tab [of "initialState ''t0''" "createNewTab ''t0''" "''t9''"]
  by (simp add: initialState_def Let_def) (simp add: createNewTab_def)

subsection \<open>C6\<close>

text \<open>
  Claim C6. In a state with at least two tabs and no id shared: closing a tab that is not
  the active one leaves the active id as it was; closing the active tab makes the first of
  the remaining tabs active; in both cases the new tab list is the old one without the
  closed tab, in the old order, and it is not empty.
\<close>

theorem C6_close_tab_active_id:
  assumes "2 \<le> length (tabs s)" and "distinct (tabIds s)"
  shows "(i \<in> set (tabIds s) \<and> i \<noteq> activeTabId s \<longrightarrow>
            activeTabId (handleCloseTab uuid i s) = activeTabId s) \<and>
         (i = activeTabId s \<longrightarrow>
            activeTabId (handleCloseTab uuid i s) = id_tab (hd (filter (\<lambda>tab. id_tab tab \<noteq> i) (tabs s)))) \<and>
         tabs (handleCloseTab uuid i s) = filter (\<lambda>tab. id_tab tab \<noteq> i) (tabs s) \<and>
         tabs (handleCloseTab uuid i s) \<noteq> [] \<and>
         (\<forall>k<length (tabs s). id_tab (tabs s ! k) = i \<longrightarrow>
            tabs (handleCloseTab uuid i s) = take k (tabs s) @ drop (Suc k) (tabs s))"
proof -
  let ?new = "filter (\<lambda>tab. id_tab tab \<noteq> i) (tabs s)"
  have "length (tabs s) - 1 \<le> length ?new"
    using assms(2) unfolding tabIds_def by (rule filter_length_ge)
  with assms(1) have ne: "?new \<noteq> []" by auto
  then have tabs': "tabs (handleCloseTab uuid i s) = ?new"
    and act': "activeTabId (handleCloseTab uuid i s)
        = (if activeTabId s = i then id_tab (?new ! 0) else activeTabId s)"
    by (simp_all add: handleCloseTab_def Let_def)
  have "\<forall>k<length (tabs s). id_tab (tabs s ! k) = i \<longrightarrow>
          ?new = take k (tabs s) @ drop (Suc k) (tabs s)"
    using assms(2) unfolding tabIds_def by (simp add: filter_remove_nth)
  with ne tabs' act' show ?thesis by (simp add: hd_conv_nth)
qed

theorem C6_close_tab_active_id_witness:
  "2 \<le> length (tabs exampleState) \<and> distinct (tabIds exampleState) \<and>
   ''t1'' \<in> set (tabIds exampleState) \<and> ''t1'' \<noteq> activeTabId exampleState \<and>
   activeTabId (handleCloseTab ''t9'' ''t1'' exampleState) = activeTabId exampleState \<and>
   tabs (handleCloseTab ''t9'' ''t1'' exampleState) = [exampleTab] \<and>
   ''t0'' = activeTabId exampleState \<and>
   activeTabId (handleCloseTab ''t9'' ''t0'' exampleState) = ''t1'' \<and>
   tabs (handleCloseTab ''t9'' ''t0'' exampleState) = [createNewTab ''t1'']"
  using C6_close_tab_active_id [of exampleState "''t1''" "''t9''"] C6_close_tab_active_id [of exampleState "''t0''" "''t9''"]
  by (simp add: tabIds_exampleState)
     (simp add: exampleState_def exampleTab_def createNewTab_def)

subsection \<open>C7\<close>

text \<open>
  Claim C7, as the code has it. \<^verbatim>\<open>handleCloseTab\<close> has no error value and never
  fails. For every state and every id that is the id of no tab: when the tab list is not
  empty it is kept as it is, and the active id is kept unless it is the closed id itself
  (a dangling active id, as \<^verbatim>\<open>onTabSelect\<close> with an unknown id leaves it), in which
  case it becomes the id of the first tab; so the result is the input state whenever the
  tab list is not empty and the active id differs from the closed id, in particular
  whenever the active id is the id of a tab. When the tab list is empty, the result is
  the state of one tab made by \<open>createNewTab\<close>, which is active.
\<close>

theorem C7_close_unknown_id:
  assumes "i \<notin> set (tabIds s)"
  shows "(tabs s \<noteq> [] \<longrightarrow>
            tabs (handleCloseTab uuid i s) = tabs s \<and>
            activeTabId (handleCloseTab uuid i s)
              = (if activeTabId s = i then id_tab (tabs s ! 0) else activeTabId s)) \<and>
         (tabs s \<noteq> [] \<and> activeTabId s \<noteq> i \<longrightarrow> handleCloseTab uuid i s = s) \<and>
         (tabs s \<noteq> [] \<and> activeTabId s \<in> set (tabIds s) \<longrightarrow> handleCloseTab uuid i s = s) \<and>
         (tabs s = [] \<longrightarrow>
            handleCloseTab uuid i s = \<lparr>tabs = [createNewTab uuid], activeTabId = uuid\<rparr>)"
proof -
  from assms have "\<forall>tab\<in>set (tabs s). id_tab tab \<noteq> i"
    by (auto simp: tabIds_def)
  then have f: "filter (\<lambda>tab. id_tab tab \<noteq> i) (tabs s) = tabs s"
    by (simp add: filter_id_conv)
  have "activeTabId s \<in> set (tabIds s) \<longrightarrow> activeTabId s \<noteq> i"
    using assms by auto
  then show ?thesis
    by (simp add: handleCloseTab_def Let_def f createNewTab_def)
qed

theorem C7_close_unknown_id_witness:
  "''zz'' \<notin> set (tabIds exampleState) \<and> tabs exampleState \<noteq> [] \<and>
   activeTabId exampleState \<noteq> ''zz'' \<and> activeTabId exampleState \<in> set (tabIds exampleState) \<and>
   handleCloseTab ''t9'' ''zz'' exampleState = exampleState \<and>
   ''zz'' \<notin> set (tabIds (onTabSelect ''zz'' exampleState)) \<and>
   tabs (onTabSelect ''zz'' exampleState) \<noteq> [] \<and>
   tabs (handleCloseTab ''t9'' ''zz'' (onTabSelect ''zz'' exampleState)) = tabs exampleState \<and>
   activeTabId (handleCloseTab ''t9'' ''zz'' (onTabSelect ''zz'' exampleState)) = ''t0'' \<and>
   ''zz'' \<notin> set (tabIds \<lparr>tabs = [], activeTabId = ''t0''\<rparr>) \<and>
   handleCloseTab ''t9'' ''zz'' \<lparr>tabs = [], activeTabId = ''t0''\<rparr>
     = \<lparr>tabs = [createNewTab ''t9''], activeTabId = ''t9''\<rparr>"
proof -
  have a: "''zz'' \<notin> set (tabIds exampleState)"
    by (simp add: tabIds_exampleState)
  have b: "''zz'' \<notin> set (tabIds (onTabSelect ''zz'' exampleState))"
    using tabIds_exampleState by (simp add: tabIds_def onTabSelect_def)
  have c: "''zz'' \<notin> set (tabIds \<lparr>tabs = [], activeTabId = ''t0''\<rparr>)"
    by (simp add: tabIds_def)
  have d: "tabs exampleState \<noteq> []" "activeTabId exampleState = ''t0''"
    "tabs exampleState ! 0 = exampleTab" "id_tab exampleTab = ''t0''"
    by (simp_all add: exampleState_def exampleTab_def)
  from C7_close_unknown_id [OF a, of "''t9''"] C7_close_unknown_id [OF b, of "''t9''"] C7_close_unknown_id [OF c, of "''t9''"] a b c d
  show ?thesis
    by (simp add: onTabSelect_def tabIds_exampleState)
qed

theorem C7_close_unknown_id_counterexample:
  "''zz'' \<notin> set (tabIds (onTabSelect ''zz'' (initialState ''t0''))) \<and>
   activeTabId (onTabSelect ''zz'' (initialState ''t0'')) = ''zz'' \<and>
   activeTabId (handleCloseTab ''t9'' ''zz'' (onTabSelect ''zz'' (initialState ''t0''))) = ''t0'' \<and>
   handleCloseTab ''t9'' ''zz'' (onTabSelect ''zz'' (initialState ''t0''))
     \<noteq> onTabSelect ''zz'' (initialState ''t0'')"
  by (simp add: tabIds_def initialState_def Let_def createNewTab_def onTabSelect_def
      handleCloseTab_def)

subsection \<open>C8\<close>

text \<open>
  Claim C8, as the code has it. The normalisation is done by the address bar, not by
  \<open>handleNavigate\<close>. On Enter the address bar trims white space from both ends of its
  text, prepends "https://" when the trimmed text starts with neither "http://" nor
  "https://", and hands the result to its callback; the destination so handed over always
  starts with one of the two prefixes. \<open>handleNavigate\<close> pushes the destination it is
  given, unchanged, after the entries up to the cursor of the active tab, makes it the
  tab's url and clears the tab's load error.
\<close>

theorem C8_address_bar_navigate:
  assumes "activeTab s = Some a"
  shows "handleKeyPress (\<lambda>u. handleNavigate u s) ''Enter'' inputValue
           = Some (handleNavigate (prependDefaultScheme (trim inputValue)) s) \<and>
         (startsWith (prependDefaultScheme (trim inputValue)) ''http://'' \<or>
          startsWith (prependDefaultScheme (trim inputValue)) ''https://'') \<and>
         (\<exists>s' a'. handleNavigate d s = Inr s' \<and> activeTab s' = Some a' \<and>
            history a' = slice (history a) 0 (currentHistoryIndex a + 1) @ [d] \<and>
            url a' = Some d \<and> error a' = None)"
proof (intro conjI)
  show "handleKeyPress (\<lambda>u. handleNavigate u s) ''Enter'' inputValue
           = Some (handleNavigate (prependDefaultScheme (trim inputValue)) s)"
    by (simp add: handleKeyPress_def prependDefaultScheme_def Let_def)
  show "startsWith (prependDefaultScheme (trim inputValue)) ''http://'' \<or>
        startsWith (prependDefaultScheme (trim inputValue)) ''https://''"
    unfolding prependDefaultScheme_def using startsWith_prepend by presburger
  show "\<exists>s' a'. handleNavigate d s = Inr s' \<and> activeTab s' = Some a' \<and>
            history a' = slice (history a) 0 (currentHistoryIndex a + 1) @ [d] \<and>
            url a' = Some d \<and> error a' = None"
    using handleNavigate_active [OF assms, of d] by fastforce
qed

theorem C8_address_bar_navigate_witness:
  "activeTab exampleState = Some exampleTab \<and>
   handleKeyPress (\<lambda>u. handleNavigate u exampleState) ''Enter'' '' example.com ''
     = Some (handleNavigate ''https://example.com'' exampleState) \<and>
   (\<exists>s' a'. handleNavigate ''https://example.com'' exampleState = Inr s' \<and>
      activeTab s' = Some a' \<and>
      history a' = ['''', ''https://a.test'', ''https://example.com''] \<and>
      url a' = Some ''https://example.com'' \<and> error a' = None)"
  using C8_address_bar_navigate [of exampleState exampleTab "'' example.com ''" "''https://example.com''"]
  by (simp add: activeTab_exampleState)
     (auto simp: exampleTab_def slice_def relativeIndex_def prependDefaultScheme_def trim_def
        isWhiteSpace_def startsWith_def)

theorem C8_address_bar_navigate_counterexample:
  "handleNavigate ''example.com'' (initialState ''t0'')
     = Inr \<lparr>tabs = [\<lparr>id_tab = ''t0'', url = Some ''example.com'', title = ''New Tab'',
                     history = ['''', ''example.com''], currentHistoryIndex = 1,
                     error = None\<rparr>],
            activeTabId = ''t0''\<rparr> \<and>
   \<not> startsWith '' http://a.test'' ''http://'' \<and> \<not> startsWith '' http://a.test'' ''https://'' \<and>
   handleKeyPress (\<lambda>u. handleNavigate u (initialState ''t0'')) ''Enter'' '' http://a.test''
     = Some (Inr \<lparr>tabs = [\<lparr>id_tab = ''t0'', url = Some ''http://a.test'', title = ''New Tab'',
                     history = ['''', ''http://a.test''], currentHistoryIndex = 1,
                     error = None\<rparr>],
            activeTabId = ''t0''\<rparr>)"
  by (simp add: handleKeyPress_def handleNavigate_def activeTab_def initialState_def Let_def
      createNewTab_def updateActiveTab_def spread_def slice_def relativeIndex_def trim_def
      isWhiteSpace_def startsWith_def)

subsection \<open>C9\<close>




subsection \<open>C10\<close>

text \<open>
  Claim C10. The handlers for navigate, back, forward, refresh, a display error and a
  completed load keep the active id, the length of the tab list and the id at every
  position of it, and leave every tab whose id is not the active id exactly as it was.
  This also holds when the handler throws, which leaves the state as it was.
\<close>

theorem C10_only_active_tab_changed:
  "onlyActiveTabChanged s (stateAfter s (handleNavigate u s)) \<and>
   onlyActiveTabChanged s (stateAfter s (handleBack s)) \<and>
   onlyActiveTabChanged s (stateAfter s (handleForward s)) \<and>
   onlyActiveTabChanged s (stateAfter s (handleRefresh s)) \<and>
   onlyActiveTabChanged s (handleIframeError s) \<and>
   onlyActiveTabChanged s (stateAfter s (handleIframeLoad hostname docTitle s))"
  by (intro conjI onlyActiveTabChanged_handleNavigate onlyActiveTabChanged_handleBack
      onlyActiveTabChanged_handleForward onlyActiveTabChanged_handleRefresh
      onlyActiveTabChanged_handleIframeError onlyActiveTabChanged_handleIframeLoad)

theorem C10_only_active_tab_changed_witness:
  "id_tab (tabs exampleState ! 1) \<noteq> activeTabId exampleState \<and>
   onlyActiveTabChanged exampleState (stateAfter exampleState (handleNavigate ''https://c.test'' exampleState)) \<and>
   onlyActiveTabChanged exampleState (stateAfter exampleState (handleBack exampleState)) \<and>
   onlyActiveTabChanged exampleState (stateAfter exampleState (handleForward exampleState)) \<and>
   onlyActiveTabChanged exampleState (stateAfter exampleState (handleRefresh exampleState)) \<and>
   onlyActiveTabChanged exampleState (handleIframeError exampleState) \<and>
   onlyActiveTabChanged exampleState
     (stateAfter exampleState (handleIframeLoad (\<lambda>u. None) (Some ''A'') exampleState)) \<and>
   tabs (stateAfter exampleState (handleNavigate ''https://c.test'' exampleState)) ! 1 = tabs exampleState ! 1"
proof -
  have "id_tab (tabs exampleState ! 1) \<noteq> activeTabId exampleState"
    by (simp add: exampleState_def createNewTab_def)
  moreover have "tabs (stateAfter exampleState (handleNavigate ''https://c.test'' exampleState)) ! 1
      = tabs exampleState ! 1"
    by (simp add: stateAfter_def handleNavigate_def activeTab_exampleState Let_def updateActiveTab_def)
       (simp add: exampleState_def createNewTab_def)
  ultimately show ?thesis
    using C10_only_active_tab_changed [of exampleState "''https://c.test''" "\<lambda>u. None" "Some ''A''"]
    by simp
qed

end
